theory Spec2Isabelle
  imports
    Main
    "HOL-Library.Multiset"
    "HOL-Library.AList"
    "HOL-Library.Char_ord"
    "HOL-Library.List_Lexorder"
begin

section \<open>android/gyp/prepare\_resources.py\<close>

text \<open>
  The script turns the resource directories of one build target into a merged resource
  archive, an identifier table (R.txt) and a source archive (.srcjar). It is embedded here
  function by function. What the script reads from its surroundings (the directory walker,
  the dependency extractor, aapt, the manifest reader, two constants of
  \<^verbatim>\<open>resource_utils\<close> and \<^verbatim>\<open>manifest_utils\<close>) is not among the sources and is
  taken as a parameter, the record \<open>env\<close>. What the script does to its surroundings is
  kept in a state: the files it reads and writes itself, and the list of the calls it makes
  to its collaborators, in order.
\<close>

subsection \<open>Python values and strings\<close>

text \<open>An optional command-line string: \<open>None\<close> when the flag is absent.\<close>

definition truthy :: "string option \<Rightarrow> bool" where
  "truthy x = (case x of None \<Rightarrow> False | Some v \<Rightarrow> v \<noteq> [])"

definition val :: "string option \<Rightarrow> string" where
  "val x = (case x of None \<Rightarrow> [] | Some v \<Rightarrow> v)"

text \<open>The members of \<^verbatim>\<open>input_strings\<close>: strings, \<^verbatim>\<open>None\<close> and booleans.\<close>

datatype pyval = PyNone | PyBool bool | PyStr string

definition pyopt :: "string option \<Rightarrow> pyval" where
  "pyopt x = (case x of None \<Rightarrow> PyNone | Some v \<Rightarrow> PyStr v)"

text \<open>\<^verbatim>\<open>str.startswith\<close> and \<^verbatim>\<open>str.endswith\<close>.\<close>

definition startswith :: "string \<Rightarrow> string \<Rightarrow> bool" where
  "startswith s p = (take (length p) s = p)"

definition endswith :: "string \<Rightarrow> string \<Rightarrow> bool" where
  "endswith s p = (length p \<le> length s \<and> drop (length s - length p) s = p)"

text \<open>\<^verbatim>\<open>os.path.basename\<close> (posixpath): what follows the last slash.\<close>

definition basename :: "string \<Rightarrow> string" where
  "basename p = rev (takeWhile (\<lambda>c. c \<noteq> CHR ''/'') (rev p))"

text \<open>\<^verbatim>\<open>'{}'.format(index)\<close> of a non-negative integer: its decimal digits.\<close>

definition digit :: "nat \<Rightarrow> char" where
  "digit d = ''0123456789'' ! d"

fun str_nat :: "nat \<Rightarrow> string" where
  "str_nat n = (if n < 10 then [digit n] else str_nat (n div 10) @ [digit (n mod 10)])"

declare str_nat.simps [simp del]

subsection \<open>Options, surroundings, state\<close>

text \<open>The attributes of \<^verbatim>\<open>options\<close> that the script reads, after \<^verbatim>\<open>_ParseArgs\<close>.\<close>

record options =
  aapt_path :: string
  shared_resources :: bool
  custom_package :: "string option"
  android_manifest :: "string option"
  resource_zip_out :: "string option"
  srcjar_out :: "string option"
  r_text_out :: "string option"
  r_text_in :: "string option"
  strip_drawables :: bool
  sources :: "string list"
  resource_dirs :: "string list"
  include_resources :: "string list"
  dependencies_res_zips :: "string list"
  extra_res_packages :: "string list"
  extra_r_text_files :: "string list"

type_synonym fs = "string \<rightharpoonup> string"

datatype error =
    SysExit nat "string list"
  | CalledProcessError "string list"
  | IOError string
  | SameFileError string
  | ManifestError string

text \<open>
  The surroundings. \<open>IterResourceFilesInDirectories env dirs pat\<close> is the list of
  (path, archive path) pairs the walker yields, \<open>pat = None\<close> standing for a call that
  leaves the ignore pattern to its default. \<open>CheckOutput env cmd fs\<close> is what running
  \<open>cmd\<close> does to the files, or the failure of the tool. \<open>GetPackage env m\<close> is the
  package that \<^verbatim>\<open>ParseManifest\<close> and \<^verbatim>\<open>GetPackage\<close> read from the manifest \<open>m\<close>.
\<close>

record env =
  EMPTY_ANDROID_MANIFEST_PATH :: string
  AAPT_IGNORE_PATTERN :: string
  MULTIPLE_RES_MAGIC_STRING :: string
  IterResourceFilesInDirectories :: "string list \<Rightarrow> string option \<Rightarrow> (string \<times> string) list"
  FindInDirectory :: "string \<Rightarrow> string list"
  relpath :: "string \<Rightarrow> string \<Rightarrow> string"
  ExtractDeps :: "string list \<Rightarrow> string \<Rightarrow> string list"
  CheckOutput :: "string list \<Rightarrow> fs \<Rightarrow> error + fs"
  GetPackage :: "string \<Rightarrow> error + string option"

text \<open>The directories of \<^verbatim>\<open>resource_utils.BuildContext()\<close>.\<close>

record build =
  deps_dir :: string
  gen_dir :: string
  srcjar_dir :: string
  r_txt_path :: string

datatype rjava_option = ExportAllResources | ExportAllStyleables | GenerateOnResourcesLoaded

text \<open>
  A call that changes the surroundings, with its arguments in the order of the source.
  What only reads (the walker, the manifest reader) is not recorded.
\<close>

datatype call =
    Called_ExtractDeps "string list" string
  | Called_CheckOutput "string list"
  | Called_Touch string
  | Called_copyfile string string
  | Called_CreateRJavaFiles string string string "string list" "string list"
      "rjava_option list" string
  | Called_ZipDir string string
  | Called_CreateResourceInfoFile "(string \<times> string) list" string
  | Called_DoZip "(string \<times> string) list" string string

record state =
  files :: fs
  calls :: "call list"

definition called :: "call \<Rightarrow> state \<Rightarrow> state" where
  "called c s = s\<lparr>calls := calls s @ [c]\<rparr>"

subsection \<open>\<^verbatim>\<open>_CheckAllFilesListed\<close>\<close>

definition missing_files_of :: "string list \<Rightarrow> (string \<times> string) list \<Rightarrow> string list" where
  "missing_files_of resource_files found =
     fold (\<lambda>(path, _) missing_files.
             if path \<notin> set resource_files then missing_files @ [path] else missing_files)
          found []"

definition listing_error :: string where
  "listing_error =
     ''Error: Found files not listed in the sources list of the BUILD.gn target:'' @ [CHR 0x0A]"

definition CheckAllFilesListed :: "env \<Rightarrow> string list \<Rightarrow> string list \<Rightarrow> error + unit" where
  "CheckAllFilesListed env resource_files dirs =
     (let missing_files =
            missing_files_of resource_files
              (IterResourceFilesInDirectories env dirs None)
      in if missing_files \<noteq> []
         then Inl (SysExit 1
                (listing_error # map (\<lambda>path. path @ [CHR 0x0A]) missing_files))
         else Inr ())"

subsection \<open>\<^verbatim>\<open>_ZipResources\<close> and \<^verbatim>\<open>_GenerateResourcesZip\<close>\<close>

text \<open>
  The two dictionaries are association lists; an assignment \<^verbatim>\<open>d[k] = v\<close> is
  \<open>AList.update k v d\<close>, and \<open>map_of\<close> reads a dictionary.
\<close>

definition archive_name :: "nat \<Rightarrow> string \<Rightarrow> string \<Rightarrow> string" where
  "archive_name index resource_dir archive_path =
     str_nat index @ ''_'' @ basename resource_dir @ ''/'' @ archive_path"

type_synonym dicts = "(string \<times> string) list \<times> (string \<times> string) list"

definition zip_file_step :: "nat \<Rightarrow> string \<Rightarrow> string \<times> string \<Rightarrow> dicts \<Rightarrow> dicts" where
  "zip_file_step index resource_dir entry d =
     (case (entry, d) of
        ((path, archive_path0), (files_to_zip, files_to_zip_without_generated)) \<Rightarrow>
          (let archive_path = archive_name index resource_dir archive_path0;
               without' = (if \<not> startswith path ''/tmp''
                           then AList.update archive_path path files_to_zip_without_generated
                           else files_to_zip_without_generated)
           in (AList.update archive_path path files_to_zip, without')))"

definition zip_dir_step :: "env \<Rightarrow> string \<Rightarrow> nat \<times> string \<Rightarrow> dicts \<Rightarrow> dicts" where
  "zip_dir_step env ignore_pattern ird d =
     (case ird of (index, resource_dir) \<Rightarrow>
        fold (zip_file_step index resource_dir)
          (IterResourceFilesInDirectories env [resource_dir] (Some ignore_pattern)) d)"

definition collect_files :: "env \<Rightarrow> string list \<Rightarrow> string \<Rightarrow> dicts" where
  "collect_files env dirs ignore_pattern =
     fold (zip_dir_step env ignore_pattern) (enumerate 0 dirs) ([], [])"

definition ZipResources :: "env \<Rightarrow> string list \<Rightarrow> string \<Rightarrow> string \<Rightarrow> state \<Rightarrow> state" where
  "ZipResources env dirs zip_path ignore_pattern s =
     (case collect_files env dirs ignore_pattern of
        (files_to_zip, files_to_zip_without_generated) \<Rightarrow>
          called (Called_DoZip files_to_zip zip_path (MULTIPLE_RES_MAGIC_STRING env))
            (called (Called_CreateResourceInfoFile files_to_zip_without_generated zip_path) s))"

definition ignore_pattern_of :: "env \<Rightarrow> bool \<Rightarrow> string" where
  "ignore_pattern_of env strip =
     (if strip then AAPT_IGNORE_PATTERN env @ '':*drawable*'' else AAPT_IGNORE_PATTERN env)"

definition GenerateResourcesZip :: "env \<Rightarrow> string \<Rightarrow> string list \<Rightarrow> bool \<Rightarrow> state \<Rightarrow> state" where
  "GenerateResourcesZip env output_resource_zip input_resource_dirs strip s =
     ZipResources env input_resource_dirs output_resource_zip (ignore_pattern_of env strip) s"

subsection \<open>\<^verbatim>\<open>_GenerateRTxt\<close>\<close>

definition package_command :: "env \<Rightarrow> options \<Rightarrow> string list \<Rightarrow> string \<Rightarrow> string list" where
  "package_command env options dep_subdirs gen =
     (let cmd0 = [aapt_path options, ''package'', ''-m'', ''-M'',
                  EMPTY_ANDROID_MANIFEST_PATH env, ''--no-crunch'', ''--auto-add-overlay'',
                  ''--no-version-vectors''];
          cmd1 = fold (\<lambda>j cmd. cmd @ [''-I'', j]) (include_resources options) cmd0;
          cmd2 = cmd1 @ [''--output-text-symbols'', gen, ''-J'', gen, ''--ignore-assets'',
                         ignore_pattern_of env (strip_drawables options)];
          cmd3 = fold (\<lambda>d cmd. cmd @ [''-S'', d]) dep_subdirs cmd2
      in fold (\<lambda>d cmd. cmd @ [''-S'', d]) (resource_dirs options) cmd3)"

definition GenerateRTxt :: "env \<Rightarrow> options \<Rightarrow> string list \<Rightarrow> string \<Rightarrow> state \<Rightarrow> error option \<times> state" where
  "GenerateRTxt env options dep_subdirs gen s =
     (let cmd = package_command env options dep_subdirs gen;
          s1 = called (Called_CheckOutput cmd) s
      in case CheckOutput env cmd (files s) of
           Inl e \<Rightarrow> (Some e, s1)
         | Inr fs' \<Rightarrow> (None, s1\<lparr>files := fs'\<rparr>))"

subsection \<open>\<^verbatim>\<open>_OnStaleMd5\<close>\<close>

text \<open>
  A step returns its outcome and the state it leaves: \<open>Some e\<close> (or \<open>Inl e\<close>, when the
  step has a result) is the exception that ends the invocation, and the state then holds
  what had been done before.
\<close>

text \<open>\<^verbatim>\<open>shutil.copyfile\<close>: the same file twice is refused, a missing source is an error.\<close>

definition copyfile :: "string \<Rightarrow> string \<Rightarrow> state \<Rightarrow> error option \<times> state" where
  "copyfile src dst s =
     (let s1 = called (Called_copyfile src dst) s
      in if src = dst then (Some (SameFileError src), s1)
         else case files s src of
                None \<Rightarrow> (Some (IOError src), s1)
              | Some data \<Rightarrow> (None, s1\<lparr>files := (files s)(dst \<mapsto> data)\<rparr>))"

text \<open>
  Modelled from the spec: \<^verbatim>\<open>build_utils.Touch\<close> is not among the sources. The spec has
  the generator "synthesize an empty placeholder": a path that holds no file holds an
  empty one afterwards, and a file that exists keeps its content.
\<close>

definition Touch :: "string \<Rightarrow> state \<Rightarrow> state" where
  "Touch path s =
     (called (Called_Touch path) s)
       \<lparr>files := (files s)(path \<mapsto> (case files s path of None \<Rightarrow> [] | Some data \<Rightarrow> data))\<rparr>"

text \<open>Lines 207 to 220: the path of the identifier table, and the state it is found in.\<close>

definition r_txt_step :: "env \<Rightarrow> build \<Rightarrow> options \<Rightarrow> state \<Rightarrow> (error + string) \<times> state" where
  "r_txt_step env b options s =
     (if truthy (r_text_in options) then (Inr (val (r_text_in options)), s)
      else
        (let dep_subdirs = ExtractDeps env (dependencies_res_zips options) (deps_dir b);
             s1 = called (Called_ExtractDeps (dependencies_res_zips options) (deps_dir b)) s
         in case GenerateRTxt env options dep_subdirs (gen_dir b) s1 of
              (Some e, s2) \<Rightarrow> (Inl e, s2)
            | (None, s2) \<Rightarrow>
                (if files s2 (r_txt_path b) = None
                 then (Inr (r_txt_path b), Touch (r_txt_path b) s2)
                 else (Inr (r_txt_path b), s2))))"

definition rjava_build_options :: "options \<Rightarrow> rjava_option list" where
  "rjava_build_options options =
     [ExportAllResources, ExportAllStyleables] @
     (if shared_resources options then [GenerateOnResourcesLoaded] else [])"

text \<open>
  Lines 226 to 230: the package, from the option or else from the manifest. Reading the
  manifest can fail.
\<close>

definition package_of :: "env \<Rightarrow> options \<Rightarrow> error + string option" where
  "package_of env options =
     (if \<not> truthy (custom_package options) \<and> truthy (android_manifest options)
      then GetPackage env (val (android_manifest options))
      else Inr (custom_package options))"

text \<open>Lines 225 to 250.\<close>

definition srcjar_step :: "env \<Rightarrow> build \<Rightarrow> options \<Rightarrow> string \<Rightarrow> state \<Rightarrow> error option \<times> state" where
  "srcjar_step env b options r_txt s =
     (case package_of env options of
        Inl e \<Rightarrow> (Some e, s)
      | Inr package \<Rightarrow>
          (let s1 = (if truthy package
                     then called (Called_CreateRJavaFiles (srcjar_dir b) (val package) r_txt
                            (extra_res_packages options) (extra_r_text_files options)
                            (rjava_build_options options) (val (srcjar_out options))) s
                     else s)
           in (None, called (Called_ZipDir (val (srcjar_out options)) (srcjar_dir b)) s1)))"

definition OnStaleMd5 :: "env \<Rightarrow> build \<Rightarrow> options \<Rightarrow> state \<Rightarrow> error option \<times> state" where
  "OnStaleMd5 env b options s =
     (case (if sources options \<noteq> []
            then CheckAllFilesListed env (sources options) (resource_dirs options)
            else Inr ()) of
        Inl e \<Rightarrow> (Some e, s)
      | Inr _ \<Rightarrow>
     (case r_txt_step env b options s of
        (Inl e, s1) \<Rightarrow> (Some e, s1)
      | (Inr r_txt, s1) \<Rightarrow>
     (case (if truthy (r_text_out options)
            then copyfile r_txt (val (r_text_out options)) s1
            else (None, s1)) of
        (Some e, s2) \<Rightarrow> (Some e, s2)
      | (None, s2) \<Rightarrow>
     (case (if truthy (srcjar_out options)
            then srcjar_step env b options r_txt s2
            else (None, s2)) of
        (Some e, s3) \<Rightarrow> (Some e, s3)
      | (None, s3) \<Rightarrow>
          (None, if truthy (resource_zip_out options)
                 then GenerateResourcesZip env (val (resource_zip_out options))
                        (resource_dirs options) (strip_drawables options) s3
                 else s3)))))"

subsection \<open>\<^verbatim>\<open>main\<close>\<close>

text \<open>The arguments that \<^verbatim>\<open>main\<close> passes to \<^verbatim>\<open>md5_check.CallAndWriteDepfileIfStale\<close>.\<close>

record gate_args =
  input_paths :: "string list"
  input_strings :: "pyval list"
  output_paths :: "string list"
  depfile_deps :: "string list"

type_synonym scan = "string list \<times> string list \<times> string list"

definition scan_file :: "env \<Rightarrow> string \<Rightarrow> string \<Rightarrow> scan \<Rightarrow> scan" where
  "scan_file env resource_dir resource_file acc =
     (case acc of (paths, deps, resource_names) \<Rightarrow>
        (if \<not> endswith resource_file ''empty/.keep''
         then (paths @ [resource_file], deps @ [resource_file],
               resource_names @ [relpath env resource_file resource_dir])
         else (paths, deps, resource_names @ [relpath env resource_file resource_dir])))"

definition scan_dir :: "env \<Rightarrow> string \<Rightarrow> scan \<Rightarrow> scan" where
  "scan_dir env resource_dir acc =
     fold (scan_file env resource_dir) (FindInDirectory env resource_dir) acc"

definition option_input_paths :: "options \<Rightarrow> string list" where
  "option_input_paths options =
     map val (filter truthy
       ([Some (aapt_path options), android_manifest options] @
        map Some (include_resources options))) @
     dependencies_res_zips options @ extra_r_text_files options"

definition main :: "env \<Rightarrow> options \<Rightarrow> gate_args" where
  "main env options =
     (let possible_output_paths =
            [resource_zip_out options, r_text_out options, srcjar_out options];
          outs = map val (filter truthy possible_output_paths);
          strings0 = map PyStr (extra_res_packages options) @
            [pyopt (custom_package options), PyBool (shared_resources options),
             PyBool (strip_drawables options)]
      in case fold (scan_dir env) (resource_dirs options) (option_input_paths options, [], []) of
           (paths, deps, resource_names) \<Rightarrow>
             \<lparr>input_paths = paths,
              input_strings = strings0 @ map PyStr (sort resource_names),
              output_paths = outs,
              depfile_deps = deps\<rparr>)"

subsection \<open>Notions the properties are stated with\<close>

text \<open>The files the walker discovers under the resource directories.\<close>

definition discovered :: "env \<Rightarrow> string list \<Rightarrow> string list" where
  "discovered env dirs = map fst (IterResourceFilesInDirectories env dirs None)"

text \<open>The search roots of a list of directories, as aapt is given them.\<close>

definition roots :: "string list \<Rightarrow> string list" where
  "roots ds = concat (map (\<lambda>d. [''-S'', d]) ds)"

text \<open>The command line of aapt up to its search roots.\<close>

definition command_head :: "env \<Rightarrow> options \<Rightarrow> string \<Rightarrow> string list" where
  "command_head env options gen =
     [aapt_path options, ''package'', ''-m'', ''-M'',
      EMPTY_ANDROID_MANIFEST_PATH env, ''--no-crunch'', ''--auto-add-overlay'',
      ''--no-version-vectors''] @
     concat (map (\<lambda>j. [''-I'', j]) (include_resources options)) @
     [''--output-text-symbols'', gen, ''-J'', gen, ''--ignore-assets'',
      ignore_pattern_of env (strip_drawables options)]"

text \<open>One dictionary assignment, and the assignments of \<^verbatim>\<open>_ZipResources\<close> in order.\<close>

definition assign :: "string \<times> string \<Rightarrow> (string \<times> string) list \<Rightarrow> (string \<times> string) list" where
  "assign kv al = AList.update (fst kv) (snd kv) al"

definition named_entries :: "env \<Rightarrow> string \<Rightarrow> nat \<times> string \<Rightarrow> (string \<times> string) list" where
  "named_entries env pat ird =
     (case ird of (i, d) \<Rightarrow>
        map (\<lambda>(path, a). (archive_name i d a, path))
          (IterResourceFilesInDirectories env [d] (Some pat)))"

definition all_entries :: "env \<Rightarrow> string list \<Rightarrow> string \<Rightarrow> (string \<times> string) list" where
  "all_entries env dirs pat = concat (map (named_entries env pat) (enumerate 0 dirs))"

definition source_backed :: "string \<times> string \<Rightarrow> bool" where
  "source_backed kv = (\<not> startswith (snd kv) ''/tmp'')"

text \<open>
  A listing of one directory is unambiguous when it gives no archive path to two
  different files. The walker of a file system is: the archive path is the path of the
  file relative to the directory.
\<close>

definition unambiguous :: "(string \<times> string) list \<Rightarrow> bool" where
  "unambiguous found = (\<forall>(p, a) \<in> set found. \<forall>(p', a') \<in> set found. a = a' \<longrightarrow> p = p')"

definition functional :: "(string \<times> string) list \<Rightarrow> bool" where
  "functional kvs = (\<forall>(k, v) \<in> set kvs. \<forall>(k', v') \<in> set kvs. k = k' \<longrightarrow> v = v')"

text \<open>The files that \<^verbatim>\<open>main\<close> lists, and the names of all files it finds.\<close>

definition listed_files :: "env \<Rightarrow> string list \<Rightarrow> string list" where
  "listed_files env dirs =
     concat (map (\<lambda>d. filter (\<lambda>f. \<not> endswith f ''empty/.keep'') (FindInDirectory env d)) dirs)"

definition resource_names_of :: "env \<Rightarrow> string list \<Rightarrow> string list" where
  "resource_names_of env dirs =
     concat (map (\<lambda>d. map (\<lambda>f. relpath env f d) (FindInDirectory env d)) dirs)"

definition option_strings :: "options \<Rightarrow> pyval list" where
  "option_strings options =
     map PyStr (extra_res_packages options) @
       [pyopt (custom_package options), PyBool (shared_resources options),
        PyBool (strip_drawables options)]"

text \<open>
  Modelled from the spec: \<^verbatim>\<open>md5_check\<close> is not among the sources. By section 4.7 of
  the spec the gate computes "a single content fingerprint over the concatenation of: the
  contents of every input path, and every literal input string", compares it with the one
  kept from the previous invocation "for the same output set", and skips the action when
  it is unchanged. The fingerprint is kept here as the data that is hashed, so that equal
  data is an equal fingerprint: the contents of the input paths (nothing for a path that
  holds no file) followed by the input strings, each as Python's \<^verbatim>\<open>str\<close> prints it,
  and beside it the output paths.
\<close>

definition py_str :: "pyval \<Rightarrow> string" where
  "py_str v =
     (case v of PyNone \<Rightarrow> ''None'' | PyBool b \<Rightarrow> (if b then ''True'' else ''False'')
      | PyStr s \<Rightarrow> s)"

definition contents_of :: "fs \<Rightarrow> string list \<Rightarrow> string" where
  "contents_of fs paths = concat (map (\<lambda>p. val (fs p)) paths)"

definition fingerprint :: "fs \<Rightarrow> gate_args \<Rightarrow> string \<times> string list" where
  "fingerprint fs args =
     (contents_of fs (input_paths args) @ concat (map py_str (input_strings args)),
      output_paths args)"

text \<open>The calls made between two states of one invocation.\<close>

definition calls_since :: "state \<Rightarrow> state \<Rightarrow> call list" where
  "calls_since s s' = drop (length (calls s)) (calls s')"

text \<open>The calls that produce an identifier table, and the table a call consumes.\<close>

fun table_generation :: "call \<Rightarrow> bool" where
  "table_generation (Called_ExtractDeps zips dir) = True"
| "table_generation (Called_CheckOutput cmd) = True"
| "table_generation (Called_Touch path) = True"
| "table_generation c = False"

fun table_used :: "call \<Rightarrow> string option" where
  "table_used (Called_copyfile src dst) = Some src"
| "table_used (Called_CreateRJavaFiles dir package r_txt packages tables opts out) = Some r_txt"
| "table_used c = None"

fun source_generation :: "call \<Rightarrow> bool" where
  "source_generation (Called_CreateRJavaFiles dir package r_txt packages tables opts out) = True"
| "source_generation c = False"

text \<open>
  Modelled from the spec: \<^verbatim>\<open>resource_utils.CreateRJavaFiles\<close> and
  \<^verbatim>\<open>build_utils.ZipDir\<close> are not among the sources. By section 4.6 of the spec "one
  source file is emitted per distinct package among {target package} and {extra
  per-dependency packages}"; the source archive holds what the staging directory holds
  when it is zipped. A source file is named here by its package. \<open>source_archive cs out\<close>
  is the content of the archive \<open>out\<close> after the calls \<open>cs\<close>, from empty directories.
\<close>

fun replay_sources :: "call \<Rightarrow> (string \<Rightarrow> string list) \<times> (string \<rightharpoonup> string list)
    \<Rightarrow> (string \<Rightarrow> string list) \<times> (string \<rightharpoonup> string list)" where
  "replay_sources (Called_CreateRJavaFiles dir package r_txt packages tables opts out) st =
     ((fst st)(dir := fst st dir @ remdups (package # packages)), snd st)"
| "replay_sources (Called_ZipDir out dir) st = (fst st, (snd st)(out \<mapsto> fst st dir))"
| "replay_sources c st = st"

definition source_archive :: "call list \<Rightarrow> string \<Rightarrow> string list option" where
  "source_archive cs out = snd (fold replay_sources cs (\<lambda>dir. [], Map.empty)) out"

text \<open>
  The calls of the steps of \<^verbatim>\<open>_OnStaleMd5\<close> that follow the identifier table: of lines
  225 to 250, of lines 252 to 254, and of lines 222 to 254 together.
\<close>

definition srcjar_calls :: "env \<Rightarrow> build \<Rightarrow> options \<Rightarrow> string \<Rightarrow> call list" where
  "srcjar_calls env b options r_txt =
     (case package_of env options of
        Inl e \<Rightarrow> []
      | Inr package \<Rightarrow>
          (if truthy package
           then [Called_CreateRJavaFiles (srcjar_dir b) (val package) r_txt
                   (extra_res_packages options) (extra_r_text_files options)
                   (rjava_build_options options) (val (srcjar_out options))]
           else []) @
          [Called_ZipDir (val (srcjar_out options)) (srcjar_dir b)])"

definition zip_calls :: "env \<Rightarrow> options \<Rightarrow> call list" where
  "zip_calls env options =
     [Called_CreateResourceInfoFile
        (snd (collect_files env (resource_dirs options)
                (ignore_pattern_of env (strip_drawables options))))
        (val (resource_zip_out options)),
      Called_DoZip
        (fst (collect_files env (resource_dirs options)
                (ignore_pattern_of env (strip_drawables options))))
        (val (resource_zip_out options)) (MULTIPLE_RES_MAGIC_STRING env)]"

definition later_calls :: "env \<Rightarrow> build \<Rightarrow> options \<Rightarrow> string \<Rightarrow> call list" where
  "later_calls env b options r_txt =
     (if truthy (r_text_out options)
      then [Called_copyfile r_txt (val (r_text_out options))] else []) @
     (if truthy (srcjar_out options) then srcjar_calls env b options r_txt else []) @
     (if truthy (resource_zip_out options) then zip_calls env options else [])"

subsection \<open>Example invocations\<close>

text \<open>A walker that lists each directory as \<open>tree\<close> says, whatever the ignore pattern.\<close>

definition walk :: "(string \<Rightarrow> (string \<times> string) list) \<Rightarrow> string list \<Rightarrow> string option
    \<Rightarrow> (string \<times> string) list" where
  "walk tree dirs pat = concat (map tree dirs)"

text \<open>Surroundings without any resource file, where aapt succeeds and writes nothing.\<close>

definition env0 :: env where
  "env0 = \<lparr>EMPTY_ANDROID_MANIFEST_PATH = ''gyp/AndroidManifest.xml'',
           AAPT_IGNORE_PATTERN = ''!OWNERS:!*.py'',
           MULTIPLE_RES_MAGIC_STRING = ''magic'',
           IterResourceFilesInDirectories = walk (\<lambda>d. []),
           FindInDirectory = (\<lambda>d. []),
           relpath = (\<lambda>f d. drop (Suc (length d)) f),
           ExtractDeps = (\<lambda>zips dir. map (\<lambda>z. dir @ ''/'' @ z) zips),
           CheckOutput = (\<lambda>cmd fs. Inr fs),
           GetPackage = (\<lambda>m. Inr None)\<rparr>"

definition opts0 :: options where
  "opts0 = \<lparr>aapt_path = ''aapt'', shared_resources = False, custom_package = None,
            android_manifest = None, resource_zip_out = None, srcjar_out = None,
            r_text_out = None, r_text_in = None, strip_drawables = False, sources = [],
            resource_dirs = [], include_resources = [], dependencies_res_zips = [],
            extra_res_packages = [], extra_r_text_files = []\<rparr>"

definition b0 :: build where
  "b0 = \<lparr>deps_dir = ''tmp/deps'', gen_dir = ''tmp/gen'', srcjar_dir = ''tmp/java'',
          r_txt_path = ''tmp/gen/R.txt''\<rparr>"

text \<open>
  The state before an invocation with no file at all; a target with two dependency
  packages and no package of its own; a target with a prebuilt identifier table.
\<close>

definition s0 :: state where
  "s0 = \<lparr>files = Map.empty, calls = []\<rparr>"

definition opts_dep :: options where
  "opts_dep = opts0\<lparr>srcjar_out := Some ''out.srcjar'',
                     extra_res_packages := [''dep.a'', ''dep.b''],
                     extra_r_text_files := [''a/R.txt'', ''b/R.txt'']\<rparr>"

definition opts_in :: options where
  "opts_in = opts0\<lparr>r_text_in := Some ''in/R.txt'', r_text_out := Some ''out/R.txt'',
                    srcjar_out := Some ''out.srcjar'', custom_package := Some ''org.target''\<rparr>"

text \<open>A resource directory before and after one of its files is renamed.\<close>

definition find_before :: "string \<Rightarrow> string list" where
  "find_before d = (if d = ''res'' then [''res/values/a.xml'', ''res/empty/.keep''] else [])"




text \<open>One directory with three files.\<close>

definition tree_res :: "string \<Rightarrow> (string \<times> string) list" where
  "tree_res d =
     (if d = ''res''
      then [(''res/values/a.xml'', ''values/a.xml''), (''res/values/b.xml'', ''values/b.xml''),
            (''res/values/c.xml'', ''values/c.xml'')]
      else [])"

text \<open>The directories \<open>A\<close> and \<open>B\<close>, each with a file \<open>foo.xml\<close>.\<close>

definition tree_AB :: "string \<Rightarrow> (string \<times> string) list" where
  "tree_AB d =
     (if d = ''A'' then [(''A/foo.xml'', ''foo.xml'')]
      else if d = ''B'' then [(''B/foo.xml'', ''foo.xml'')]
      else [])"

text \<open>Two directories of the same base name, each with a file \<open>foo.xml\<close>.\<close>

definition tree_same :: "string \<Rightarrow> (string \<times> string) list" where
  "tree_same d =
     (if d = ''x/res'' then [(''x/res/foo.xml'', ''foo.xml'')]
      else if d = ''y/res'' then [(''y/res/foo.xml'', ''foo.xml'')]
      else [])"

text \<open>A checked-in directory and a generated one under \<open>/tmp\<close>.\<close>

definition tree_gen :: "string \<Rightarrow> (string \<times> string) list" where
  "tree_gen d =
     (if d = ''res'' then [(''res/values/strings.xml'', ''values/strings.xml'')]
      else if d = ''/tmp/gen/res'' then [(''/tmp/gen/res/values/ids.xml'', ''values/ids.xml'')]
      else [])"

section \<open>Properties\<close>

subsection \<open>Loops as closed forms\<close>

lemma fold_append_each: "fold (\<lambda>x acc. acc @ f x) xs acc = acc @ concat (map f xs)"
  by (induction xs arbitrary: acc) simp_all

lemma missing_files_of_acc:
  "fold (\<lambda>(path, _) missing_files.
             if path \<notin> set listed then missing_files @ [path] else missing_files) found acc
   = acc @ filter (\<lambda>p. p \<notin> set listed) (map fst found)"
  by (induction found arbitrary: acc) (simp_all add: case_prod_beta)

lemma missing_files_of_filter:
  "missing_files_of listed found = filter (\<lambda>p. p \<notin> set listed) (map fst found)"
  by (simp add: missing_files_of_def missing_files_of_acc)

lemma package_command_eq:
  "package_command env options dep_subdirs gen =
     command_head env options gen @ roots dep_subdirs @ roots (resource_dirs options)"
  by (simp add: package_command_def command_head_def roots_def Let_def fold_append_each)

lemma length_roots: "length (roots ds) = 2 * length ds"
  by (induction ds) (simp_all add: roots_def)

lemma roots_nth:
  "i < length ds \<Longrightarrow> roots ds ! (2 * i) = ''-S'' \<and> roots ds ! (2 * i + 1) = ds ! i"
proof (induction ds arbitrary: i)
  case Nil
  then show ?case by simp
next
  case (Cons d ds)
  show ?case
  proof (cases i)
    case 0
    then show ?thesis by (simp add: roots_def)
  next
    case (Suc k)
    with Cons.prems have "k < length ds" by simp
    from Cons.IH [OF this] Suc show ?thesis by (simp add: roots_def)
  qed
qed

lemma nth_second: "(h @ r1 @ r2) ! (length h + k) = (r1 @ r2) ! k"
  by (simp only: nth_append_length_plus)

lemma nth_third: "(h @ r1 @ r2) ! (length h + (length r1 + k)) = r2 ! k"
  by (simp only: nth_append_length_plus)

subsection \<open>The completeness check\<close>

text \<open>
  C5. If a file discovered under the resource directories is not in the declared list,
  \<^verbatim>\<open>_CheckAllFilesListed\<close> ends the invocation with exit status 1, after it has written
  the heading and then every undeclared file, one per line, in the order of discovery;
  if every discovered file is declared, it returns normally. \<^verbatim>\<open>_OnStaleMd5\<close> runs the
  check first when the declared list is not empty, and ends with that exit before it
  has called any collaborator.
\<close>

theorem check_reports_every_undeclared_file:
  "((\<exists>p \<in> set (discovered env dirs). p \<notin> set listed) \<longrightarrow>
      CheckAllFilesListed env listed dirs =
        Inl (SysExit 1 (listing_error #
          map (\<lambda>p. p @ [CHR 0x0A])
            (filter (\<lambda>p. p \<notin> set listed) (discovered env dirs)))))
   \<and> ((\<forall>p \<in> set (discovered env dirs). p \<in> set listed) \<longrightarrow>
      CheckAllFilesListed env listed dirs = Inr ())
   \<and> (sources options \<noteq> []
        \<and> (\<exists>p \<in> set (discovered env (resource_dirs options)). p \<notin> set (sources options)) \<longrightarrow>
      OnStaleMd5 env b options s =
        (Some (SysExit 1 (listing_error #
           map (\<lambda>p. p @ [CHR 0x0A])
             (filter (\<lambda>p. p \<notin> set (sources options))
                (discovered env (resource_dirs options))))), s))"
proof -
  have check: "CheckAllFilesListed env l ds =
      (if \<exists>p \<in> set (discovered env ds). p \<notin> set l
       then Inl (SysExit 1 (listing_error #
              map (\<lambda>p. p @ [CHR 0x0A]) (filter (\<lambda>p. p \<notin> set l) (discovered env ds))))
       else Inr ())" for l ds
    by (auto simp: CheckAllFilesListed_def missing_files_of_filter discovered_def Let_def
        filter_empty_conv)
  show ?thesis by (auto simp: check OnStaleMd5_def)
qed

theorem check_reports_every_undeclared_file_witness:
  "CheckAllFilesListed (env0\<lparr>IterResourceFilesInDirectories := walk tree_res\<rparr>)
     [''res/values/b.xml''] [''res''] =
     Inl (SysExit 1 [listing_error, ''res/values/a.xml'' @ [CHR 0x0A],
                     ''res/values/c.xml'' @ [CHR 0x0A]])
   \<and> CheckAllFilesListed (env0\<lparr>IterResourceFilesInDirectories := walk tree_res\<rparr>)
     [''res/values/a.xml'', ''res/values/b.xml'', ''res/values/c.xml''] [''res''] = Inr ()
   \<and> OnStaleMd5 (env0\<lparr>IterResourceFilesInDirectories := walk tree_res\<rparr>) b0
       (opts0\<lparr>sources := [''res/values/b.xml''], resource_dirs := [''res'']\<rparr>) s0 =
     (Some (SysExit 1 [listing_error, ''res/values/a.xml'' @ [CHR 0x0A],
                       ''res/values/c.xml'' @ [CHR 0x0A]]), s0)"
  using check_reports_every_undeclared_file
          [of "env0\<lparr>IterResourceFilesInDirectories := walk tree_res\<rparr>" "[''res'']"
              "[''res/values/b.xml'']"
              "opts0\<lparr>sources := [''res/values/b.xml''], resource_dirs := [''res'']\<rparr>" b0 s0]
        check_reports_every_undeclared_file
          [of "env0\<lparr>IterResourceFilesInDirectories := walk tree_res\<rparr>" "[''res'']"
              "[''res/values/a.xml'', ''res/values/b.xml'', ''res/values/c.xml'']"]
  by (simp add: discovered_def env0_def opts0_def walk_def tree_res_def)

subsection \<open>The command line of aapt\<close>

text \<open>
  C7. The command line that \<^verbatim>\<open>_GenerateRTxt\<close> builds ends with the search roots: first
  \<open>-S d\<close> for every extracted dependency subdirectory, then \<open>-S d\<close> for every resource
  directory of the target. So the \<open>i\<close>-th dependency subdirectory is passed at an
  earlier position than the \<open>j\<close>-th resource directory of the target, for all \<open>i\<close> and
  \<open>j\<close>.
\<close>

theorem dependency_roots_before_own_roots:
  assumes "i < length dep_subdirs" and "j < length (resource_dirs options)"
  shows "package_command env options dep_subdirs gen =
           command_head env options gen @ roots dep_subdirs @ roots (resource_dirs options)
     \<and> length (command_head env options gen) + 2 * i
         < length (command_head env options gen) + 2 * length dep_subdirs + 2 * j
     \<and> package_command env options dep_subdirs gen
         ! (length (command_head env options gen) + 2 * i) = ''-S''
     \<and> package_command env options dep_subdirs gen
         ! (length (command_head env options gen) + 2 * i + 1) = dep_subdirs ! i
     \<and> package_command env options dep_subdirs gen
         ! (length (command_head env options gen) + 2 * length dep_subdirs + 2 * j) = ''-S''
     \<and> package_command env options dep_subdirs gen
         ! (length (command_head env options gen) + 2 * length dep_subdirs + 2 * j + 1)
         = resource_dirs options ! j"
proof -
  let ?h = "command_head env options gen"
  let ?own = "resource_dirs options"
  let ?cmd = "package_command env options dep_subdirs gen"
  let ?a = "length ?h + 2 * i"
  let ?b = "length ?h + (length (roots dep_subdirs) + 2 * j)"
  have cmd: "?cmd = ?h @ roots dep_subdirs @ roots ?own" by (rule package_command_eq)
  have in_deps: "2 * i < length (roots dep_subdirs)" "2 * i + 1 < length (roots dep_subdirs)"
    using assms(1) by (simp_all add: length_roots)
  have a1: "?cmd ! ?a = ''-S''"
    using roots_nth [OF assms(1)] in_deps by (simp add: cmd nth_second nth_append)
  have "?cmd ! (?a + 1) = (roots dep_subdirs @ roots ?own) ! (2 * i + 1)"
    unfolding cmd add.assoc by (rule nth_second)
  then have a2: "?cmd ! (?a + 1) = dep_subdirs ! i"
    using roots_nth [OF assms(1)] in_deps by (simp add: nth_append)
  have b1: "?cmd ! ?b = ''-S''"
    using roots_nth [OF assms(2)] by (simp add: cmd nth_third)
  have "?cmd ! (?b + 1) = roots ?own ! (2 * j + 1)"
    unfolding cmd add.assoc by (rule nth_third)
  then have b2: "?cmd ! (?b + 1) = ?own ! j"
    using roots_nth [OF assms(2)] by simp
  have lt: "?a < ?b" using assms(1) by (simp add: length_roots)
  have b: "length ?h + 2 * length dep_subdirs + 2 * j = ?b"
    by (simp add: length_roots)
  from cmd lt a1 a2 b1 b2 show ?thesis unfolding b by blast
qed

theorem dependency_roots_before_own_roots_witness:
  "package_command env0 (opts0\<lparr>resource_dirs := [''res'', ''res2'']\<rparr>)
       [''deps/0'', ''deps/1''] ''gen'' ! 17 = ''deps/1''
   \<and> package_command env0 (opts0\<lparr>resource_dirs := [''res'', ''res2'']\<rparr>)
       [''deps/0'', ''deps/1''] ''gen'' ! 19 = ''res''
   \<and> package_command env0 (opts0\<lparr>resource_dirs := [''res'', ''res2'']\<rparr>)
       [''deps/0'', ''deps/1''] ''gen'' =
     [''aapt'', ''package'', ''-m'', ''-M'', ''gyp/AndroidManifest.xml'', ''--no-crunch'',
      ''--auto-add-overlay'', ''--no-version-vectors'', ''--output-text-symbols'', ''gen'',
      ''-J'', ''gen'', ''--ignore-assets'', ''!OWNERS:!*.py'',
      ''-S'', ''deps/0'', ''-S'', ''deps/1'', ''-S'', ''res'', ''-S'', ''res2'']"
  using dependency_roots_before_own_roots
          [of 1 "[''deps/0'', ''deps/1'']" 0 "opts0\<lparr>resource_dirs := [''res'', ''res2'']\<rparr>"
              env0 "''gen''"]
  by (simp add: command_head_def roots_def env0_def opts0_def ignore_pattern_of_def)

subsection \<open>Decimal numerals and archive names\<close>

lemma digit_inj: "a < 10 \<Longrightarrow> b < 10 \<Longrightarrow> digit a = digit b \<Longrightarrow> a = b"
proof -
  assume a: "a < 10" and b: "b < 10" and eq: "digit a = digit b"
  have d: "distinct ''0123456789''" by simp
  have "a < length ''0123456789''" "b < length ''0123456789''" using a b by simp_all
  with d eq show "a = b" unfolding digit_def by (simp only: nth_eq_iff_index_eq)
qed

lemma digit_in: "a < 10 \<Longrightarrow> digit a \<in> set ''0123456789''"
  unfolding digit_def by (rule nth_mem) simp

lemma str_nat_not_Nil: "str_nat n \<noteq> []"
  by (subst str_nat.simps) simp

lemma str_nat_digits: "set (str_nat n) \<subseteq> set ''0123456789''"
proof (induction n rule: str_nat.induct)
  case (1 n)
  show ?case
  proof (cases "n < 10")
    case True
    then show ?thesis using digit_in [of n] by (subst str_nat.simps) simp
  next
    case False
    have "n mod 10 < 10" by simp
    from digit_in [OF this] 1 [OF False] False show ?thesis
      by (subst str_nat.simps) simp
  qed
qed

lemma underscore_not_in_str_nat: "CHR ''_'' \<notin> set (str_nat n)"
  using str_nat_digits [of n] by auto

lemma str_nat_inj: "str_nat n = str_nat m \<Longrightarrow> n = m"
proof (induction n arbitrary: m rule: str_nat.induct)
  case (1 n)
  show ?case
  proof (cases "n < 10")
    case n: True
    show ?thesis
    proof (cases "m < 10")
      case True
      with n "1.prems" show ?thesis
        by (simp add: str_nat.simps [of n] str_nat.simps [of m] digit_inj)
    next
      case False
      with n "1.prems" str_nat_not_Nil [of "m div 10"] show ?thesis
        by (simp add: str_nat.simps [of n] str_nat.simps [of m])
    qed
  next
    case n: False
    show ?thesis
    proof (cases "m < 10")
      case True
      with n "1.prems" str_nat_not_Nil [of "n div 10"] show ?thesis
        by (simp add: str_nat.simps [of n] str_nat.simps [of m])
    next
      case False
      with n "1.prems" have eq: "str_nat (n div 10) = str_nat (m div 10)"
        and d: "digit (n mod 10) = digit (m mod 10)"
        by (simp_all add: str_nat.simps [of n] str_nat.simps [of m])
      from "1.IH" [OF n eq] have q: "n div 10 = m div 10" .
      have "n mod 10 = m mod 10" by (rule digit_inj [OF _ _ d]) simp_all
      with q show ?thesis by (metis div_mult_mod_eq)
    qed
  qed
qed

lemma split_at_separator:
  "c \<notin> set s1 \<Longrightarrow> c \<notin> set s2 \<Longrightarrow> s1 @ c # r1 = s2 @ c # r2 \<Longrightarrow> s1 = s2 \<and> r1 = r2"
proof (induction s1 arbitrary: s2)
  case Nil
  then show ?case by (cases s2) auto
next
  case (Cons x s1)
  then show ?case by (cases s2) auto
qed

lemma archive_name_inj:
  assumes "archive_name i d a = archive_name j d' a'"
  shows "i = j \<and> basename d @ ''/'' @ a = basename d' @ ''/'' @ a'"
proof -
  from assms have "str_nat i @ CHR ''_'' # (basename d @ ''/'' @ a)
      = str_nat j @ CHR ''_'' # (basename d' @ ''/'' @ a')"
    by (simp add: archive_name_def)
  from split_at_separator [OF underscore_not_in_str_nat underscore_not_in_str_nat this]
  show ?thesis by (auto dest: str_nat_inj)
qed

lemma archive_name_same_dir: "archive_name i d a = archive_name j d a' \<Longrightarrow> a = a'"
  by (drule archive_name_inj) simp

subsection \<open>The dictionaries of \<^verbatim>\<open>_ZipResources\<close>\<close>

lemma map_of_assign: "map_of (assign kv al) k = (if k = fst kv then Some (snd kv) else map_of al k)"
  by (simp add: assign_def update_conv')

lemma map_of_fold_assign:
  "map_of (fold assign kvs al) k =
     (case map_of (rev kvs) k of Some v \<Rightarrow> Some v | None \<Rightarrow> map_of al k)"
proof (induction kvs arbitrary: al)
  case Nil
  then show ?case by simp
next
  case (Cons kv kvs)
  show ?case
    by (cases kv)
       (simp add: Cons.IH map_of_assign map_of_append map_add_def split: option.splits)
qed


lemma fold_zip_file_step:
  "fold (zip_file_step i d) es (A, B) =
     (fold assign (map (\<lambda>(path, a). (archive_name i d a, path)) es) A,
      fold assign (filter source_backed (map (\<lambda>(path, a). (archive_name i d a, path)) es)) B)"
  by (induction es arbitrary: A B)
     (auto simp: zip_file_step_def assign_def source_backed_def Let_def)

lemma zip_dir_step_eq:
  "zip_dir_step env pat ird (A, B) =
     (fold assign (named_entries env pat ird) A,
      fold assign (filter source_backed (named_entries env pat ird)) B)"
  by (cases ird) (simp add: zip_dir_step_def named_entries_def fold_zip_file_step)

lemma fold_zip_dir_step:
  "fold (zip_dir_step env pat) irds (A, B) =
     (fold assign (concat (map (named_entries env pat) irds)) A,
      fold assign (filter source_backed (concat (map (named_entries env pat) irds))) B)"
  by (induction irds arbitrary: A B) (simp_all add: zip_dir_step_eq)

lemma collect_files_eq:
  "collect_files env dirs pat =
     (fold assign (all_entries env dirs pat) [],
      fold assign (filter source_backed (all_entries env dirs pat)) [])"
  by (simp add: collect_files_def all_entries_def fold_zip_dir_step)

lemma in_named_entries:
  "(k, p) \<in> set (named_entries env pat (i, d)) \<longleftrightarrow>
     (\<exists>a. (p, a) \<in> set (IterResourceFilesInDirectories env [d] (Some pat))
        \<and> k = archive_name i d a)"
  by (force simp: named_entries_def)

lemma in_all_entries:
  "(k, p) \<in> set (all_entries env dirs pat) \<longleftrightarrow>
     (\<exists>i a. i < length dirs \<and> (p, a) \<in> set (IterResourceFilesInDirectories env [dirs ! i] (Some pat))
        \<and> k = archive_name i (dirs ! i) a)"
proof -
  have "(k, p) \<in> set (all_entries env dirs pat) \<longleftrightarrow>
      (\<exists>ird \<in> set (enumerate 0 dirs). (k, p) \<in> set (named_entries env pat ird))"
    by (simp add: all_entries_def)
  also have "\<dots> \<longleftrightarrow> (\<exists>i. i < length dirs \<and> (k, p) \<in> set (named_entries env pat (i, dirs ! i)))"
    by (auto simp: in_set_enumerate_eq)
  finally show ?thesis by (simp add: in_named_entries)
qed

lemma functional_map_of:
  assumes "functional kvs"
  shows "map_of (rev kvs) k = Some v \<longleftrightarrow> (k, v) \<in> set kvs"
proof
  assume "map_of (rev kvs) k = Some v"
  then show "(k, v) \<in> set kvs" by (auto dest: map_of_SomeD)
next
  assume in_kvs: "(k, v) \<in> set kvs"
  then have "(k, v) \<in> set (rev kvs)" by simp
  from weak_map_of_SomeI [OF this] obtain v' where v': "map_of (rev kvs) k = Some v'" by blast
  then have "(k, v') \<in> set kvs" by (auto dest: map_of_SomeD)
  with in_kvs assms have "v' = v" by (auto simp: functional_def)
  with v' show "map_of (rev kvs) k = Some v" by simp
qed

lemma functional_filter: "functional kvs \<Longrightarrow> functional (filter P kvs)"
  by (auto simp: functional_def)

lemma functional_all_entries:
  assumes "\<forall>d \<in> set dirs. unambiguous (IterResourceFilesInDirectories env [d] (Some pat))"
  shows "functional (all_entries env dirs pat)"
  unfolding functional_def
proof (intro ballI, clarify)
  fix k p p'
  assume "(k, p) \<in> set (all_entries env dirs pat)" and "(k, p') \<in> set (all_entries env dirs pat)"
  then obtain i a j a' where i: "i < length dirs"
      and pa: "(p, a) \<in> set (IterResourceFilesInDirectories env [dirs ! i] (Some pat))"
      and k: "k = archive_name i (dirs ! i) a"
      and j: "j < length dirs"
      and pa': "(p', a') \<in> set (IterResourceFilesInDirectories env [dirs ! j] (Some pat))"
      and k': "k = archive_name j (dirs ! j) a'"
    unfolding in_all_entries by blast
  from k k' have ij: "i = j" by (auto dest: archive_name_inj)
  with k k' have "a = a'" by (auto dest: archive_name_same_dir)
  moreover from i assms have "unambiguous (IterResourceFilesInDirectories env [dirs ! i] (Some pat))"
    by simp
  ultimately show "p = p'" using pa pa' ij by (auto simp: unambiguous_def)
qed

lemma archive_lookup:
  "map_of (fst (collect_files env dirs pat)) k = map_of (rev (all_entries env dirs pat)) k"
  by (simp add: collect_files_eq map_of_fold_assign split: option.splits)

lemma provenance_lookup:
  "map_of (snd (collect_files env dirs pat)) k =
     map_of (rev (filter source_backed (all_entries env dirs pat))) k"
  by (simp add: collect_files_eq map_of_fold_assign split: option.splits)


lemma str_nat_small: "n < 10 \<Longrightarrow> str_nat n = [digit n]"
  by (subst str_nat.simps) simp

lemma calls_ZipResources:
  "calls (ZipResources env dirs zip_path pat s) =
     calls s @ [Called_CreateResourceInfoFile (snd (collect_files env dirs pat)) zip_path,
                Called_DoZip (fst (collect_files env dirs pat)) zip_path
                  (MULTIPLE_RES_MAGIC_STRING env)]"
  by (simp add: ZipResources_def called_def split: prod.splits)

subsection \<open>The merged archive\<close>

text \<open>
  C3. \<^verbatim>\<open>_ZipResources\<close> hands \<^verbatim>\<open>DoZip\<close> a dictionary in which every file that the
  walker discovers in the directory of ordinal \<open>i\<close>, with relative path \<open>a\<close>, is found
  under the name \<open>{i}_{basename of the directory}/{a}\<close>; a name built for one ordinal is
  never built for another, whatever the directories and relative paths are. The listing of
  each directory is taken to be unambiguous, as a walk of a file system is. In the
  scenario of the directories \<open>A\<close> and \<open>B\<close>, each with a \<open>foo.xml\<close>, the archive holds
  \<open>0_A/foo.xml\<close> from \<open>A\<close> and \<open>1_B/foo.xml\<close> from \<open>B\<close>.
\<close>

theorem merged_archive_names:
  assumes "\<forall>d \<in> set dirs. unambiguous (IterResourceFilesInDirectories env [d] (Some pat))"
    and "i < length dirs"
    and "(path, a) \<in> set (IterResourceFilesInDirectories env [dirs ! i] (Some pat))"
  shows "Called_DoZip (fst (collect_files env dirs pat)) zip_path (MULTIPLE_RES_MAGIC_STRING env)
           \<in> set (calls (ZipResources env dirs zip_path pat s))
     \<and> map_of (fst (collect_files env dirs pat)) (archive_name i (dirs ! i) a) = Some path
     \<and> archive_name i (dirs ! i) a = str_nat i @ ''_'' @ basename (dirs ! i) @ ''/'' @ a
     \<and> (\<forall>j d' a'. j \<noteq> i \<longrightarrow> archive_name j d' a' \<noteq> archive_name i (dirs ! i) a)"
proof -
  have "(archive_name i (dirs ! i) a, path) \<in> set (all_entries env dirs pat)"
    unfolding in_all_entries using assms(2,3) by blast
  with functional_all_entries [OF assms(1)]
  have "map_of (fst (collect_files env dirs pat)) (archive_name i (dirs ! i) a) = Some path"
    by (simp add: archive_lookup functional_map_of)
  moreover have "\<forall>j d' a'. j \<noteq> i \<longrightarrow> archive_name j d' a' \<noteq> archive_name i (dirs ! i) a"
    by (auto dest: archive_name_inj)
  ultimately show ?thesis by (simp add: calls_ZipResources archive_name_def)
qed

theorem merged_archive_names_witness:
  "map_of (fst (collect_files (env0\<lparr>IterResourceFilesInDirectories := walk tree_AB\<rparr>)
      [''A'', ''B''] ''!OWNERS'')) ''0_A/foo.xml'' = Some ''A/foo.xml''
   \<and> map_of (fst (collect_files (env0\<lparr>IterResourceFilesInDirectories := walk tree_AB\<rparr>)
      [''A'', ''B''] ''!OWNERS'')) ''1_B/foo.xml'' = Some ''B/foo.xml''
   \<and> fst (collect_files (env0\<lparr>IterResourceFilesInDirectories := walk tree_AB\<rparr>)
      [''A'', ''B''] ''!OWNERS'') = [(''0_A/foo.xml'', ''A/foo.xml''), (''1_B/foo.xml'', ''B/foo.xml'')]
   \<and> map_of (fst (collect_files (env0\<lparr>IterResourceFilesInDirectories := walk tree_same\<rparr>)
      [''x/res'', ''y/res''] ''!OWNERS'')) ''1_res/foo.xml'' = Some ''y/res/foo.xml''
   \<and> fst (collect_files (env0\<lparr>IterResourceFilesInDirectories := walk tree_same\<rparr>)
      [''x/res'', ''y/res''] ''!OWNERS'')
       = [(''0_res/foo.xml'', ''x/res/foo.xml''), (''1_res/foo.xml'', ''y/res/foo.xml'')]"
  using merged_archive_names
          [of "[''A'', ''B'']" "env0\<lparr>IterResourceFilesInDirectories := walk tree_AB\<rparr>"
              "''!OWNERS''" 0 "''A/foo.xml''" "''foo.xml''"]
        merged_archive_names
          [of "[''A'', ''B'']" "env0\<lparr>IterResourceFilesInDirectories := walk tree_AB\<rparr>"
              "''!OWNERS''" 1 "''B/foo.xml''" "''foo.xml''"]
        merged_archive_names
          [of "[''x/res'', ''y/res'']" "env0\<lparr>IterResourceFilesInDirectories := walk tree_same\<rparr>"
              "''!OWNERS''" 1 "''y/res/foo.xml''" "''foo.xml''"]
  by (simp add: env0_def walk_def tree_AB_def tree_same_def unambiguous_def archive_name_def str_nat_small
      digit_def basename_def collect_files_def zip_dir_step_def zip_file_step_def
      startswith_def Let_def)

subsection \<open>The provenance record\<close>

text \<open>
  C8. \<^verbatim>\<open>_ZipResources\<close> hands \<^verbatim>\<open>CreateResourceInfoFile\<close> the provenance dictionary and
  \<^verbatim>\<open>DoZip\<close> the archive dictionary. With unambiguous listings, the provenance dictionary
  maps a name to a file exactly when the archive dictionary does and the path of the file
  does not start with \<open>/tmp\<close>; the archive dictionary holds every discovered file, those
  under \<open>/tmp\<close> too.
\<close>

theorem provenance_is_source_backed_archive:
  assumes "\<forall>d \<in> set dirs. unambiguous (IterResourceFilesInDirectories env [d] (Some pat))"
  shows "calls (ZipResources env dirs zip_path pat s) =
           calls s @ [Called_CreateResourceInfoFile (snd (collect_files env dirs pat)) zip_path,
                      Called_DoZip (fst (collect_files env dirs pat)) zip_path
                        (MULTIPLE_RES_MAGIC_STRING env)]
     \<and> (map_of (snd (collect_files env dirs pat)) k = Some p \<longleftrightarrow>
          map_of (fst (collect_files env dirs pat)) k = Some p \<and> \<not> startswith p ''/tmp'')
     \<and> (\<forall>i < length dirs. \<forall>(path, a) \<in> set (IterResourceFilesInDirectories env [dirs ! i] (Some pat)).
          map_of (fst (collect_files env dirs pat)) (archive_name i (dirs ! i) a) = Some path)"
proof -
  note f = functional_all_entries [OF assms]
  have "map_of (snd (collect_files env dirs pat)) k = Some p \<longleftrightarrow>
          map_of (fst (collect_files env dirs pat)) k = Some p \<and> \<not> startswith p ''/tmp''"
    using f
    by (auto simp: archive_lookup provenance_lookup functional_map_of functional_filter
        source_backed_def)
  moreover have "\<forall>i < length dirs.
      \<forall>(path, a) \<in> set (IterResourceFilesInDirectories env [dirs ! i] (Some pat)).
          map_of (fst (collect_files env dirs pat)) (archive_name i (dirs ! i) a) = Some path"
  proof (intro allI impI ballI, clarify)
    fix i path a
    assume "i < length dirs"
      and "(path, a) \<in> set (IterResourceFilesInDirectories env [dirs ! i] (Some pat))"
    then have "(archive_name i (dirs ! i) a, path) \<in> set (all_entries env dirs pat)"
      unfolding in_all_entries by blast
    with f show "map_of (fst (collect_files env dirs pat)) (archive_name i (dirs ! i) a) = Some path"
      by (simp add: archive_lookup functional_map_of)
  qed
  ultimately show ?thesis by (simp add: calls_ZipResources)
qed

theorem provenance_is_source_backed_archive_witness:
  "map_of (snd (collect_files (env0\<lparr>IterResourceFilesInDirectories := walk tree_gen\<rparr>)
      [''res'', ''/tmp/gen/res''] ''!OWNERS'')) ''0_res/values/strings.xml''
     = Some ''res/values/strings.xml''
   \<and> map_of (snd (collect_files (env0\<lparr>IterResourceFilesInDirectories := walk tree_gen\<rparr>)
      [''res'', ''/tmp/gen/res''] ''!OWNERS'')) ''1_res/values/ids.xml'' = None
   \<and> map_of (fst (collect_files (env0\<lparr>IterResourceFilesInDirectories := walk tree_gen\<rparr>)
      [''res'', ''/tmp/gen/res''] ''!OWNERS'')) ''1_res/values/ids.xml''
     = Some ''/tmp/gen/res/values/ids.xml''"
  using provenance_is_source_backed_archive
          [of "[''res'', ''/tmp/gen/res'']" "env0\<lparr>IterResourceFilesInDirectories := walk tree_gen\<rparr>"
              "''!OWNERS''" "''out.zip''" "\<lparr>files = Map.empty, calls = []\<rparr>"
              "''0_res/values/strings.xml''" "''res/values/strings.xml''"]
  by (simp add: env0_def walk_def tree_gen_def unambiguous_def archive_name_def str_nat_small
      digit_def basename_def collect_files_def zip_dir_step_def zip_file_step_def
      startswith_def Let_def)


subsection \<open>The arguments of the staleness gate\<close>

lemma fold_scan_file:
  "fold (scan_file env d) fs (P, D, N) =
     (P @ filter (\<lambda>f. \<not> endswith f ''empty/.keep'') fs,
      D @ filter (\<lambda>f. \<not> endswith f ''empty/.keep'') fs,
      N @ map (\<lambda>f. relpath env f d) fs)"
  by (induction fs arbitrary: P D N) (simp_all add: scan_file_def)

lemma fold_scan_dir:
  "fold (scan_dir env) dirs (P, D, N) =
     (P @ listed_files env dirs, D @ listed_files env dirs, N @ resource_names_of env dirs)"
  by (induction dirs arbitrary: P D N)
     (simp_all add: scan_dir_def fold_scan_file listed_files_def resource_names_of_def)

lemma main_eq:
  "main env options =
     \<lparr>input_paths = option_input_paths options @ listed_files env (resource_dirs options),
      input_strings = option_strings options @
        map PyStr (sort (resource_names_of env (resource_dirs options))),
      output_paths = map val (filter truthy
        [resource_zip_out options, r_text_out options, srcjar_out options]),
      depfile_deps = listed_files env (resource_dirs options)\<rparr>"
  by (simp add: main_def fold_scan_dir option_strings_def Let_def)

text \<open>
  C10. Of the files found under a resource directory, \<^verbatim>\<open>main\<close> adds to the input paths
  and to the dependency record exactly those whose path does not end with
  \<open>empty/.keep\<close>: such a file is not in the dependency record, and it is among the input
  paths only if an option names it as an input of its own; its name relative to the
  directory is among the input strings all the same. Every other file found is in both
  lists.
\<close>

theorem keep_file_left_out:
  assumes "d \<in> set (resource_dirs options)" and "f \<in> set (FindInDirectory env d)"
  shows "input_paths (main env options) =
           option_input_paths options @ depfile_deps (main env options)
     \<and> (endswith f ''empty/.keep'' \<longrightarrow>
          f \<notin> set (depfile_deps (main env options))
          \<and> (f \<notin> set (option_input_paths options) \<longrightarrow> f \<notin> set (input_paths (main env options)))
          \<and> PyStr (relpath env f d) \<in> set (input_strings (main env options)))
     \<and> (\<not> endswith f ''empty/.keep'' \<longrightarrow>
          f \<in> set (input_paths (main env options))
          \<and> f \<in> set (depfile_deps (main env options))
          \<and> PyStr (relpath env f d) \<in> set (input_strings (main env options)))"
proof -
  have name: "relpath env f d \<in> set (resource_names_of env (resource_dirs options))"
    using assms by (auto simp: resource_names_of_def)
  have listed: "f \<in> set (listed_files env (resource_dirs options)) \<longleftrightarrow>
      \<not> endswith f ''empty/.keep''" (is "?l \<longleftrightarrow> _")
  proof
    assume ?l
    then show "\<not> endswith f ''empty/.keep''" by (auto simp: listed_files_def)
  next
    assume "\<not> endswith f ''empty/.keep''"
    with assms show ?l by (auto simp: listed_files_def)
  qed
  from name listed show ?thesis by (simp add: main_eq)
qed

theorem keep_file_left_out_witness:
  "''res/empty/.keep'' \<notin> set (input_paths (main (env0\<lparr>FindInDirectory := find_before\<rparr>)
        (opts0\<lparr>resource_dirs := [''res'']\<rparr>)))
   \<and> ''res/empty/.keep'' \<notin> set (depfile_deps (main (env0\<lparr>FindInDirectory := find_before\<rparr>)
        (opts0\<lparr>resource_dirs := [''res'']\<rparr>)))
   \<and> PyStr ''empty/.keep'' \<in> set (input_strings (main (env0\<lparr>FindInDirectory := find_before\<rparr>)
        (opts0\<lparr>resource_dirs := [''res'']\<rparr>)))
   \<and> ''res/values/a.xml'' \<in> set (input_paths (main (env0\<lparr>FindInDirectory := find_before\<rparr>)
        (opts0\<lparr>resource_dirs := [''res'']\<rparr>)))
   \<and> ''res/values/a.xml'' \<in> set (depfile_deps (main (env0\<lparr>FindInDirectory := find_before\<rparr>)
        (opts0\<lparr>resource_dirs := [''res'']\<rparr>)))"
  using keep_file_left_out
          [of "''res''" "opts0\<lparr>resource_dirs := [''res'']\<rparr>" "''res/empty/.keep''"
              "env0\<lparr>FindInDirectory := find_before\<rparr>"]
        keep_file_left_out
          [of "''res''" "opts0\<lparr>resource_dirs := [''res'']\<rparr>" "''res/values/a.xml''"
              "env0\<lparr>FindInDirectory := find_before\<rparr>"]
  by (simp add: env0_def opts0_def find_before_def endswith_def option_input_paths_def
      truthy_def val_def)





subsection \<open>The steps of \<^verbatim>\<open>_OnStaleMd5\<close>\<close>

lemma calls_since_append: "calls s' = calls s @ cs \<Longrightarrow> calls_since s s' = cs"
  by (simp add: calls_since_def)

lemma r_txt_step_given:
  "truthy (r_text_in options) \<Longrightarrow> r_txt_step env b options s = (Inr (val (r_text_in options)), s)"
  by (simp add: r_txt_step_def)

lemma r_txt_step_calls:
  "\<exists>cs. calls (snd (r_txt_step env b options s)) = calls s @ cs
     \<and> (\<forall>c \<in> set cs. table_generation c \<and> \<not> truthy (r_text_in options))"
  by (auto simp: r_txt_step_def GenerateRTxt_def Touch_def called_def Let_def
      split: sum.splits option.splits)

lemma copyfile_calls: "calls (snd (copyfile src dst s)) = calls s @ [Called_copyfile src dst]"
  by (simp add: copyfile_def called_def Let_def split: option.splits)

lemma copyfile_files:
  "fst (copyfile src dst s) = None \<Longrightarrow>
     files (snd (copyfile src dst s)) = (files s)(dst := files s src) \<and> files s src \<noteq> None"
  by (auto simp: copyfile_def called_def Let_def split: option.splits if_splits)

lemma srcjar_step_state:
  "calls (snd (srcjar_step env b options r_txt s)) = calls s @ srcjar_calls env b options r_txt
   \<and> files (snd (srcjar_step env b options r_txt s)) = files s"
  by (auto simp: srcjar_step_def srcjar_calls_def called_def Let_def split: sum.splits)

lemma GenerateResourcesZip_state:
  "calls (GenerateResourcesZip env (val (resource_zip_out options)) (resource_dirs options)
            (strip_drawables options) s) = calls s @ zip_calls env options
   \<and> files (GenerateResourcesZip env (val (resource_zip_out options)) (resource_dirs options)
            (strip_drawables options) s) = files s"
  by (simp add: GenerateResourcesZip_def ZipResources_def zip_calls_def called_def
      split: prod.splits)

lemma OnStaleMd5_run:
  "\<exists>cs. calls (snd (OnStaleMd5 env b options s)) = calls s @ cs
     \<and> (\<forall>c \<in> set cs. table_generation c \<and> \<not> truthy (r_text_in options)
           \<or> (\<exists>r. fst (r_txt_step env b options s) = Inr r \<and> c \<in> set (later_calls env b options r)))
     \<and> (fst (OnStaleMd5 env b options s) = None \<longrightarrow>
          (\<exists>r. fst (r_txt_step env b options s) = Inr r
             \<and> cs = calls_since s (snd (r_txt_step env b options s)) @ later_calls env b options r
             \<and> files (snd (OnStaleMd5 env b options s)) =
                 (if truthy (r_text_out options)
                  then (files (snd (r_txt_step env b options s)))
                         (val (r_text_out options) := files (snd (r_txt_step env b options s)) r)
                  else files (snd (r_txt_step env b options s)))))"
proof (cases "sources options \<noteq> [] \<and>
    (\<exists>e. CheckAllFilesListed env (sources options) (resource_dirs options) = Inl e)")
  case True
  then show ?thesis by (auto simp: OnStaleMd5_def)
next
  case False
  then have chk: "(if sources options \<noteq> []
            then CheckAllFilesListed env (sources options) (resource_dirs options)
            else Inr ()) = Inr ()"
    by (cases "CheckAllFilesListed env (sources options) (resource_dirs options)") auto
  obtain o1 s1 where t: "r_txt_step env b options s = (o1, s1)"
    by (cases "r_txt_step env b options s") auto
  from r_txt_step_calls [of env b options s] t obtain cs1
    where s1: "calls s1 = calls s @ cs1"
      and g1: "\<forall>c \<in> set cs1. table_generation c \<and> \<not> truthy (r_text_in options)"
    by auto
  have since1: "calls_since s s1 = cs1" using s1 by (rule calls_since_append)
  show ?thesis
  proof (cases o1)
    case (Inl e)
    with chk t s1 g1 show ?thesis by (auto simp: OnStaleMd5_def)
  next
    case (Inr r)
    obtain o2 s2 where c: "(if truthy (r_text_out options)
            then copyfile r (val (r_text_out options)) s1 else (None, s1)) = (o2, s2)"
      by (cases "(if truthy (r_text_out options)
            then copyfile r (val (r_text_out options)) s1 else (None, s1))") auto
    let ?c2 = "if truthy (r_text_out options)
      then [Called_copyfile r (val (r_text_out options))] else []"
    have s2: "calls s2 = calls s1 @ ?c2"
      using c copyfile_calls [of r "val (r_text_out options)" s1]
      by (auto split: if_splits)
    have f2: "o2 = None \<Longrightarrow> files s2 =
        (if truthy (r_text_out options)
         then (files s1)(val (r_text_out options) := files s1 r) else files s1)"
      using c copyfile_files [of r "val (r_text_out options)" s1] by (auto split: if_splits)
    show ?thesis
    proof (cases o2)
      case (Some e)
      with chk t Inr c s1 s2 g1 show ?thesis
        by (auto simp: OnStaleMd5_def later_calls_def)
    next
      case None
      obtain o3 s3 where j: "(if truthy (srcjar_out options)
            then srcjar_step env b options r s2 else (None, s2)) = (o3, s3)"
        by (cases "(if truthy (srcjar_out options)
            then srcjar_step env b options r s2 else (None, s2))") auto
      let ?c3 = "if truthy (srcjar_out options) then srcjar_calls env b options r else []"
      have s3: "calls s3 = calls s2 @ ?c3" and f3: "files s3 = files s2"
        using j srcjar_step_state [of env b options r s2] by (auto split: if_splits)
      show ?thesis
      proof (cases o3)
        case (Some e)
        with chk t Inr c None j s1 s2 s3 g1 show ?thesis
          by (auto simp: OnStaleMd5_def later_calls_def)
      next
        case n3: None
        have run: "OnStaleMd5 env b options s =
          (None, if truthy (resource_zip_out options)
                 then GenerateResourcesZip env (val (resource_zip_out options))
                        (resource_dirs options) (strip_drawables options) s3
                 else s3)"
          using chk t Inr c None j n3 by (simp add: OnStaleMd5_def)
        show ?thesis
          using s1 g1 since1 s2 s3 f3 f2 [OF None] t Inr
            GenerateResourcesZip_state [of env options s3]
          by (auto simp: run later_calls_def)
      qed
    qed
  qed
qed


lemmas run_defs =
  OnStaleMd5_def r_txt_step_def GenerateRTxt_def Touch_def copyfile_def srcjar_step_def
  package_of_def rjava_build_options_def GenerateResourcesZip_def ZipResources_def
  called_def truthy_def val_def Let_def

lemma later_calls_use_table:
  "c \<in> set (later_calls env b options r) \<Longrightarrow>
     \<not> table_generation c \<and> (table_used c = None \<or> table_used c = Some r)"
  by (auto simp: later_calls_def srcjar_calls_def zip_calls_def split: if_splits sum.splits)

lemma later_calls_generation:
  "c \<in> set (later_calls env b options r) \<Longrightarrow> source_generation c \<Longrightarrow>
     \<exists>p. package_of env options = Inr p \<and> truthy p"
  by (cases "package_of env options")
     (auto simp: later_calls_def srcjar_calls_def zip_calls_def split: if_splits)

lemma table_generation_not_source: "table_generation c \<Longrightarrow> \<not> source_generation c"
  by (cases c) simp_all

lemma replay_without_generation:
  assumes "\<forall>c \<in> set cs. \<not> source_generation c" and "\<forall>d. fst st d = []"
    and "snd st out = Some [] \<or> (\<exists>dir. Called_ZipDir out dir \<in> set cs)"
  shows "snd (fold replay_sources cs st) out = Some []"
  using assms
proof (induction cs arbitrary: st)
  case Nil
  then show ?case by simp
next
  case (Cons c cs)
  have gen: "\<forall>c \<in> set cs. \<not> source_generation c" using Cons.prems(1) by simp
  have c: "\<not> source_generation c" using Cons.prems(1) by simp
  have empty: "\<forall>d. fst (replay_sources c st) d = []"
    using Cons.prems(2) c by (cases c) simp_all
  have "snd (replay_sources c st) out = Some [] \<or> (\<exists>dir. Called_ZipDir out dir \<in> set cs)"
    using Cons.prems(2,3) c by (cases c) auto
  from Cons.IH [OF gen empty this] show ?case by simp
qed

subsection \<open>The source archive without a package\<close>

text \<open>
  C1, as the code has it. When \<^verbatim>\<open>--srcjar-out\<close> is given and no package is determined
  (no \<^verbatim>\<open>--custom-package\<close>, and no manifest or a manifest without a package),
  \<^verbatim>\<open>_OnStaleMd5\<close> never calls the source generator, whatever dependency packages and
  tables are given; an invocation that succeeds still zips the staging directory, and the
  source archive holds no source file, neither of the target nor of a dependency.
\<close>

theorem no_package_no_sources:
  assumes "truthy (srcjar_out options)"
    and "package_of env options = Inr package" and "\<not> truthy package"
  shows "(\<forall>c \<in> set (calls_since s (snd (OnStaleMd5 env b options s))). \<not> source_generation c)
     \<and> (fst (OnStaleMd5 env b options s) = None \<longrightarrow>
          Called_ZipDir (val (srcjar_out options)) (srcjar_dir b)
            \<in> set (calls_since s (snd (OnStaleMd5 env b options s)))
          \<and> source_archive (calls_since s (snd (OnStaleMd5 env b options s)))
               (val (srcjar_out options)) = Some [])"
proof -
  let ?s' = "snd (OnStaleMd5 env b options s)"
  from OnStaleMd5_run [of env b options s] obtain cs
    where cs: "calls ?s' = calls s @ cs"
      and each: "\<forall>c \<in> set cs. table_generation c \<and> \<not> truthy (r_text_in options)
           \<or> (\<exists>r. fst (r_txt_step env b options s) = Inr r \<and> c \<in> set (later_calls env b options r))"
      and ok: "fst (OnStaleMd5 env b options s) = None \<longrightarrow>
          (\<exists>r. fst (r_txt_step env b options s) = Inr r
             \<and> cs = calls_since s (snd (r_txt_step env b options s)) @ later_calls env b options r
             \<and> files (snd (OnStaleMd5 env b options s)) =
                 (if truthy (r_text_out options)
                  then (files (snd (r_txt_step env b options s)))
                         (val (r_text_out options) := files (snd (r_txt_step env b options s)) r)
                  else files (snd (r_txt_step env b options s))))"
    by (elim exE conjE) (rule that)
  have since: "calls_since s ?s' = cs" using cs by (rule calls_since_append)
  have none: "\<forall>c \<in> set cs. \<not> source_generation c"
  proof
    fix c assume "c \<in> set cs"
    with each consider "table_generation c"
      | r where "c \<in> set (later_calls env b options r)" by blast
    then show "\<not> source_generation c"
    proof cases
      case 1
      then show ?thesis by (rule table_generation_not_source)
    next
      case 2
      with assms(2,3) show ?thesis by (auto dest: later_calls_generation)
    qed
  qed
  have "Called_ZipDir (val (srcjar_out options)) (srcjar_dir b) \<in> set cs
      \<and> source_archive cs (val (srcjar_out options)) = Some []"
    if "fst (OnStaleMd5 env b options s) = None"
  proof -
    from ok that obtain r
      where "cs = calls_since s (snd (r_txt_step env b options s)) @ later_calls env b options r"
      by blast
    with assms have z: "Called_ZipDir (val (srcjar_out options)) (srcjar_dir b) \<in> set cs"
      by (simp add: later_calls_def srcjar_calls_def)
    have "snd (fold replay_sources cs (\<lambda>dir. [], Map.empty)) (val (srcjar_out options)) = Some []"
      by (rule replay_without_generation [OF none]) (use z in auto)
    with z show ?thesis by (simp add: source_archive_def)
  qed
  with none show ?thesis by (simp add: since)
qed

theorem no_package_no_sources_witness:
  "calls (snd (OnStaleMd5 env0 b0 (opts_dep\<lparr>android_manifest := Some ''AndroidManifest.xml''\<rparr>) s0)) =
     [Called_ExtractDeps [] ''tmp/deps'',
      Called_CheckOutput
        [''aapt'', ''package'', ''-m'', ''-M'', ''gyp/AndroidManifest.xml'', ''--no-crunch'',
         ''--auto-add-overlay'', ''--no-version-vectors'', ''--output-text-symbols'',
         ''tmp/gen'', ''-J'', ''tmp/gen'', ''--ignore-assets'', ''!OWNERS:!*.py''],
      Called_Touch ''tmp/gen/R.txt'',
      Called_ZipDir ''out.srcjar'' ''tmp/java'']
   \<and> source_archive
        (calls (snd (OnStaleMd5 env0 b0 (opts_dep\<lparr>android_manifest := Some ''AndroidManifest.xml''\<rparr>) s0)))
        ''out.srcjar'' = Some []"
  using no_package_no_sources
          [of "opts_dep\<lparr>android_manifest := Some ''AndroidManifest.xml''\<rparr>" env0 None s0 b0]
  by (simp add: run_defs env0_def b0_def opts0_def opts_dep_def s0_def package_command_def
      ignore_pattern_of_def calls_since_def source_archive_def)

text \<open>
  C1, as the spec has it, fails: with the dependency packages \<open>dep.a\<close> and \<open>dep.b\<close>
  and no package of the target, the invocation succeeds and the source archive is empty;
  with a package of the target it holds the three source files.
\<close>

theorem dependency_sources_missing:
  "extra_res_packages opts_dep = [''dep.a'', ''dep.b'']
   \<and> fst (OnStaleMd5 env0 b0 opts_dep s0) = None
   \<and> source_archive (calls (snd (OnStaleMd5 env0 b0 opts_dep s0))) ''out.srcjar'' = Some []
   \<and> source_archive
        (calls (snd (OnStaleMd5 env0 b0 (opts_dep\<lparr>custom_package := Some ''org.target''\<rparr>) s0)))
        ''out.srcjar'' = Some [''org.target'', ''dep.a'', ''dep.b'']"
  by (simp add: run_defs env0_def b0_def opts0_def opts_dep_def s0_def package_command_def
      ignore_pattern_of_def source_archive_def)


subsection \<open>The placeholder table\<close>

text \<open>
  C6. Without \<^verbatim>\<open>--r-text-in\<close>, when aapt succeeds, lines 207 to 220 do not fail and
  leave a file at the path of the identifier table: the one aapt wrote or, when aapt
  wrote none, an empty file made by \<^verbatim>\<open>Touch\<close>. Copying the table from there to another
  path then finds its source.
\<close>

theorem placeholder_table:
  assumes "\<not> truthy (r_text_in options)"
    and "CheckOutput env
           (package_command env options
              (ExtractDeps env (dependencies_res_zips options) (deps_dir b)) (gen_dir b))
           (files s) = Inr fs'"
  shows "fst (r_txt_step env b options s) = Inr (r_txt_path b)
     \<and> files (snd (r_txt_step env b options s)) =
         (case fs' (r_txt_path b) of None \<Rightarrow> fs'(r_txt_path b \<mapsto> []) | Some t \<Rightarrow> fs')
     \<and> files (snd (r_txt_step env b options s)) (r_txt_path b) \<noteq> None
     \<and> (fs' (r_txt_path b) = None \<longrightarrow>
          files (snd (r_txt_step env b options s)) (r_txt_path b) = Some []
          \<and> calls_since s (snd (r_txt_step env b options s)) =
              [Called_ExtractDeps (dependencies_res_zips options) (deps_dir b),
               Called_CheckOutput
                 (package_command env options
                    (ExtractDeps env (dependencies_res_zips options) (deps_dir b)) (gen_dir b)),
               Called_Touch (r_txt_path b)])
     \<and> (out \<noteq> r_txt_path b \<longrightarrow>
          fst (copyfile (r_txt_path b) out (snd (r_txt_step env b options s))) = None)"
  using assms
  by (auto simp: r_txt_step_def GenerateRTxt_def Touch_def called_def copyfile_def Let_def
      calls_since_def split: option.splits)

theorem placeholder_table_witness:
  "fst (OnStaleMd5 env0 b0 (opts0\<lparr>r_text_out := Some ''out/R.txt''\<rparr>) s0) = None
   \<and> files (snd (r_txt_step env0 b0 (opts0\<lparr>r_text_out := Some ''out/R.txt''\<rparr>) s0))
        ''tmp/gen/R.txt'' = Some []
   \<and> files (snd (OnStaleMd5 env0 b0 (opts0\<lparr>r_text_out := Some ''out/R.txt''\<rparr>) s0))
        ''out/R.txt'' = Some []"
  using placeholder_table
          [of "opts0\<lparr>r_text_out := Some ''out/R.txt''\<rparr>" env0 b0 s0 Map.empty "''out/R.txt''"]
  by (simp add: run_defs env0_def b0_def opts0_def s0_def package_command_def
      ignore_pattern_of_def calls_since_def)

subsection \<open>A prebuilt identifier table\<close>

text \<open>
  C9. With \<^verbatim>\<open>--r-text-in\<close>, the table step returns the given path and does nothing; in
  the whole invocation, failed or not, no call extracts dependencies, runs aapt or
  touches a table, and every call that consumes a table consumes the given one. An
  invocation that succeeds has copied the given table to \<^verbatim>\<open>--r-text-out\<close>, if that is
  asked for, and has handed the given table to the source generator, if a source archive
  is asked for and a package is determined.
\<close>

theorem given_table_is_used:
  assumes "truthy (r_text_in options)"
  shows "r_txt_step env b options s = (Inr (val (r_text_in options)), s)
     \<and> (\<forall>c \<in> set (calls_since s (snd (OnStaleMd5 env b options s))).
          \<not> table_generation c
          \<and> (table_used c = None \<or> table_used c = Some (val (r_text_in options))))
     \<and> (fst (OnStaleMd5 env b options s) = None \<longrightarrow>
          (truthy (r_text_out options) \<longrightarrow>
             Called_copyfile (val (r_text_in options)) (val (r_text_out options))
               \<in> set (calls_since s (snd (OnStaleMd5 env b options s)))
             \<and> files (snd (OnStaleMd5 env b options s)) (val (r_text_out options))
                 = files s (val (r_text_in options)))
          \<and> (truthy (srcjar_out options) \<longrightarrow>
               (\<forall>package. package_of env options = Inr package \<and> truthy package \<longrightarrow>
                  Called_CreateRJavaFiles (srcjar_dir b) (val package) (val (r_text_in options))
                      (extra_res_packages options) (extra_r_text_files options)
                      (rjava_build_options options) (val (srcjar_out options))
                    \<in> set (calls_since s (snd (OnStaleMd5 env b options s))))))"
proof -
  let ?s' = "snd (OnStaleMd5 env b options s)"
  let ?r = "val (r_text_in options)"
  note given = r_txt_step_given [OF assms, of env b s]
  from OnStaleMd5_run [of env b options s] obtain cs
    where cs: "calls ?s' = calls s @ cs"
      and each: "\<forall>c \<in> set cs. table_generation c \<and> \<not> truthy (r_text_in options)
           \<or> (\<exists>r. fst (r_txt_step env b options s) = Inr r \<and> c \<in> set (later_calls env b options r))"
      and ok: "fst (OnStaleMd5 env b options s) = None \<longrightarrow>
          (\<exists>r. fst (r_txt_step env b options s) = Inr r
             \<and> cs = calls_since s (snd (r_txt_step env b options s)) @ later_calls env b options r
             \<and> files (snd (OnStaleMd5 env b options s)) =
                 (if truthy (r_text_out options)
                  then (files (snd (r_txt_step env b options s)))
                         (val (r_text_out options) := files (snd (r_txt_step env b options s)) r)
                  else files (snd (r_txt_step env b options s))))"
    by (elim exE conjE) (rule that)
  have since: "calls_since s ?s' = cs" using cs by (rule calls_since_append)
  have used: "\<forall>c \<in> set cs. \<not> table_generation c \<and> (table_used c = None \<or> table_used c = Some ?r)"
  proof
    fix c assume "c \<in> set cs"
    with each assms have "c \<in> set (later_calls env b options ?r)" by (auto simp: given)
    then show "\<not> table_generation c \<and> (table_used c = None \<or> table_used c = Some ?r)"
      by (rule later_calls_use_table)
  qed
  have finished: "cs = later_calls env b options ?r
      \<and> files ?s' = (if truthy (r_text_out options)
                     then (files s)(val (r_text_out options) := files s ?r) else files s)"
    if "fst (OnStaleMd5 env b options s) = None"
    using ok that by (simp add: given calls_since_def)
  have copy: "Called_copyfile ?r (val (r_text_out options)) \<in> set cs
      \<and> files ?s' (val (r_text_out options)) = files s ?r"
    if "fst (OnStaleMd5 env b options s) = None" and "truthy (r_text_out options)"
    using finished [OF that(1)] that(2) by (simp add: later_calls_def)
  have gen: "Called_CreateRJavaFiles (srcjar_dir b) (val package) ?r
        (extra_res_packages options) (extra_r_text_files options)
        (rjava_build_options options) (val (srcjar_out options)) \<in> set cs"
    if "fst (OnStaleMd5 env b options s) = None" and "truthy (srcjar_out options)"
      and "package_of env options = Inr package" and "truthy package" for package
    using finished [OF that(1)] that(2,3,4) by (simp add: later_calls_def srcjar_calls_def)
  from used copy gen show ?thesis by (simp add: given since)
qed

theorem given_table_is_used_witness:
  "fst (OnStaleMd5 env0 b0 opts_in \<lparr>files = [''in/R.txt'' \<mapsto> ''int id a 0x7f010000''], calls = []\<rparr>)
     = None
   \<and> calls (snd (OnStaleMd5 env0 b0 opts_in
        \<lparr>files = [''in/R.txt'' \<mapsto> ''int id a 0x7f010000''], calls = []\<rparr>)) =
     [Called_copyfile ''in/R.txt'' ''out/R.txt'',
      Called_CreateRJavaFiles ''tmp/java'' ''org.target'' ''in/R.txt'' [] []
        [ExportAllResources, ExportAllStyleables] ''out.srcjar'',
      Called_ZipDir ''out.srcjar'' ''tmp/java'']
   \<and> files (snd (OnStaleMd5 env0 b0 opts_in
        \<lparr>files = [''in/R.txt'' \<mapsto> ''int id a 0x7f010000''], calls = []\<rparr>)) ''out/R.txt''
     = Some ''int id a 0x7f010000''"
  using given_table_is_used
          [of opts_in env0 b0 "\<lparr>files = [''in/R.txt'' \<mapsto> ''int id a 0x7f010000''], calls = []\<rparr>"]
  by (simp add: run_defs env0_def b0_def opts0_def opts_in_def calls_since_def)

subsection \<open>What the fingerprint leaves out\<close>

text \<open>
  C2 fails on the code: the path given with \<^verbatim>\<open>--r-text-in\<close> is in neither
  \<^verbatim>\<open>input_paths\<close> nor \<^verbatim>\<open>input_strings\<close>. Two invocations with the same options, whose
  prebuilt tables differ in content, have the same fingerprint and write different
  tables to \<^verbatim>\<open>--r-text-out\<close>.
\<close>

theorem given_table_not_fingerprinted:
  "r_text_in opts_in = Some ''in/R.txt''
   \<and> input_paths (main env0 opts_in) = [''aapt'']
   \<and> input_strings (main env0 opts_in) = [PyStr ''org.target'', PyBool False, PyBool False]
   \<and> fingerprint [''in/R.txt'' \<mapsto> ''int id a 0x7f010000''] (main env0 opts_in)
     = fingerprint [''in/R.txt'' \<mapsto> ''int id b 0x7f010000''] (main env0 opts_in)
   \<and> files (snd (OnStaleMd5 env0 b0 opts_in
        \<lparr>files = [''in/R.txt'' \<mapsto> ''int id a 0x7f010000''], calls = []\<rparr>)) ''out/R.txt''
     = Some ''int id a 0x7f010000''
   \<and> files (snd (OnStaleMd5 env0 b0 opts_in
        \<lparr>files = [''in/R.txt'' \<mapsto> ''int id b 0x7f010000''], calls = []\<rparr>)) ''out/R.txt''
     = Some ''int id b 0x7f010000''"
  by (simp add: run_defs env0_def b0_def opts0_def opts_in_def main_def fingerprint_def
      option_input_paths_def pyopt_def contents_of_def py_str_def)


end
